theory Spec2Isabelle
  imports Main "HOL-Library.Multiset"
begin

section \<open>Data model of \<^verbatim>\<open>FilamentScene.web.tsx\<close>\<close>

text \<open>
  Native engine objects, caller-supplied React elements and DOM elements are opaque
  references: only their identity is ever inspected by the component. A JavaScript object
  built by the component is a pair of its reference identity and its content, so that
  the identity preserved by \<^verbatim>\<open>useMemo\<close> can be told apart from the content.
\<close>

type_synonym handle = nat
type_synonym element = nat
type_synonym dom = nat
type_synonym 'a obj = "nat \<times> 'a"

datatype worklet_context = FilamentWorkletContext

datatype ref = CanvasRef

text \<open>\<^verbatim>\<open>FilamentContextType\<close>: the object literal of lines 108-120.\<close>

record FilamentContextType =
  engine :: handle
  transformManager :: handle
  renderableManager :: handle
  scene :: handle
  lightManager :: handle
  view :: handle
  camera :: handle
  renderer :: handle
  nameComponentManager :: handle
  workletContext :: worklet_context
  choreographer :: handle

text \<open>The ten local constants of the component body (lines 59-89), each set or unset.\<close>

record handles =
  h_transformManager :: "handle option"
  h_renderableManager :: "handle option"
  h_scene :: "handle option"
  h_lightManager :: "handle option"
  h_view :: "handle option"
  h_camera :: "handle option"
  h_renderer :: "handle option"
  h_nameComponentManager :: "handle option"
  h_choreographer :: "handle option"
  h_engine :: "handle option"

text \<open>
  \<^verbatim>\<open>FilamentProviderProps\<close>, destructured at line 55 into \<^verbatim>\<open>children\<close> and the rest,
  \<^verbatim>\<open>viewProps\<close>; \<open>config\<close> stands for the engine, view and renderer options that the
  component only passes on.
\<close>

record viewProps =
  frameRateOptions :: "nat option"
  fallback :: "element option"
  config :: nat

record FilamentProviderProps =
  children :: "element list"
  viewProps :: viewProps

datatype rendererProps = RendererProps "nat option"

text \<open>The React tree a render returns (lines 137-147).\<close>

datatype node =
    Null
  | Element element
  | Canvas ref
  | FilamentContext_Provider "FilamentContextType obj" "node list"
  | Configurator "rendererProps obj" viewProps "node list"
  | RenderContextProvider "node list"

fun has_canvas :: "node \<Rightarrow> bool" and any_canvas :: "node list \<Rightarrow> bool" where
  "has_canvas Null = False"
| "has_canvas (Element e) = False"
| "has_canvas (Canvas r) = True"
| "has_canvas (FilamentContext_Provider v ns) = any_canvas ns"
| "has_canvas (Configurator rp vp ns) = any_canvas ns"
| "has_canvas (RenderContextProvider ns) = any_canvas ns"
| "any_canvas [] = False"
| "any_canvas (n # ns) = (has_canvas n \<or> any_canvas ns)"

fun has_element :: "element \<Rightarrow> node \<Rightarrow> bool" and any_element :: "element \<Rightarrow> node list \<Rightarrow> bool" where
  "has_element x Null = False"
| "has_element x (Element e) = (e = x)"
| "has_element x (Canvas r) = False"
| "has_element x (FilamentContext_Provider v ns) = any_element x ns"
| "has_element x (Configurator rp vp ns) = any_element x ns"
| "has_element x (RenderContextProvider ns) = any_element x ns"
| "any_element x [] = False"
| "any_element x (n # ns) = (has_element x n \<or> any_element x ns)"

text \<open>The context value a tree publishes to its descendants, if any.\<close>

fun published :: "node \<Rightarrow> FilamentContextType obj option" where
  "published (FilamentContext_Provider v ns) = Some v"
| "published n = None"

section \<open>The memoised context value (lines 92-132)\<close>

text \<open>The condition of the \<^verbatim>\<open>if\<close> at lines 93-104, in the order of the source.\<close>

definition any_unset :: "handles \<Rightarrow> bool" where
  "any_unset hs =
     (h_transformManager hs = None \<or> h_renderableManager hs = None \<or> h_scene hs = None \<or>
      h_lightManager hs = None \<or> h_view hs = None \<or> h_camera hs = None \<or>
      h_renderer hs = None \<or> h_nameComponentManager hs = None \<or>
      h_choreographer hs = None \<or> h_engine hs = None)"

text \<open>The callback handed to \<^verbatim>\<open>useMemo\<close>; \<open>None\<close> is \<^verbatim>\<open>undefined\<close>.\<close>

definition value_callback :: "handles \<Rightarrow> FilamentContextType option" where
  "value_callback hs =
     (if any_unset hs then None
      else Some \<lparr>engine = the (h_engine hs),
                 transformManager = the (h_transformManager hs),
                 renderableManager = the (h_renderableManager hs),
                 scene = the (h_scene hs),
                 lightManager = the (h_lightManager hs),
                 view = the (h_view hs),
                 camera = the (h_camera hs),
                 renderer = the (h_renderer hs),
                 nameComponentManager = the (h_nameComponentManager hs),
                 workletContext = FilamentWorkletContext,
                 choreographer = the (h_choreographer hs)\<rparr>)"

text \<open>
  React's \<^verbatim>\<open>useMemo\<close>: the cell keeps the dependencies and the result of the last
  computation; the stored result is returned while the dependencies are the same, and
  the callback's fresh result replaces it otherwise.
\<close>

definition useMemo :: "'v \<Rightarrow> 'd \<Rightarrow> ('d \<times> 'v) option \<Rightarrow> 'v \<times> ('d \<times> 'v) option" where
  "useMemo fresh deps cell =
     (case cell of
        None \<Rightarrow> (fresh, Some (deps, fresh))
      | Some (d, v) \<Rightarrow> if d = deps then (v, cell) else (fresh, Some (deps, fresh)))"

section \<open>Hook state of one mounted component\<close>

text \<open>The nine \<^verbatim>\<open>useDisposableResource\<close> calls of lines 62-89, in call order.\<close>

datatype slot =
    TransformManager | RenderableManager | Scene | LightManager | View | Camera
  | Renderer | NameComponentManager | Choreographer

definition slots :: "slot list" where
  "slots = [TransformManager, RenderableManager, Scene, LightManager, View, Camera,
            Renderer, NameComponentManager, Choreographer]"

text \<open>
  What an \<^verbatim>\<open>initialize\<close> callback asks for when it runs and its call returns:
  \<^verbatim>\<open>engine?.createX()\<close> is a call on the engine when the engine is set and
  \<^verbatim>\<open>undefined\<close> otherwise (lines 63-79); the choreographer is created through
  \<^verbatim>\<open>FilamentProxy\<close> inside the worklet context (lines 85-88). A call that throws
  instead of returning is the error branch of \<open>initialize\<close> below.
\<close>

datatype request = Create slot handle | Resolved_undefined | CreateChoreographer

definition optional_call :: "slot \<Rightarrow> handle option \<Rightarrow> request" where
  "optional_call k eng = (case eng of None \<Rightarrow> Resolved_undefined | Some e \<Rightarrow> Create k e)"

text \<open>
  The state behind one \<^verbatim>\<open>useDisposableResource\<close> call: the handle it returns, the
  dependency list of the effect that ran last (\<open>None\<close> before the first commit), the
  acquisition of that effect while it is in flight (numbered by the render that issued
  it), and the acquisitions of earlier effects that are still in flight.
\<close>

record disposable =
  resource :: "handle option"
  effect_deps :: "handle option list option"
  pending :: "(nat \<times> request) option"
  stale :: "nat list"

record effect =
  eff_slot :: slot
  eff_request :: request
  eff_deps :: "handle option list"

record hooks =
  canvasRef_current :: "dom option"
  engine_state :: "handle option"
  cells :: "slot \<Rightarrow> disposable"
  value_memo :: "(handles \<times> FilamentContextType obj option) option"
  rendererProps_memo :: "(nat option \<times> rendererProps obj) option"
  renders :: nat

text \<open>
  The component as mounted: \<^verbatim>\<open>useRef(null)\<close>, no state set, no memo computed, no effect
  run.
\<close>

definition mount :: hooks where
  "mount = \<lparr>canvasRef_current = None, engine_state = None,
            cells = (\<lambda>k. \<lparr>resource = None, effect_deps = None, pending = None, stale = []\<rparr>),
            value_memo = None, rendererProps_memo = None, renders = 0\<rparr>"

text \<open>
  Modelled from the spec: \<^verbatim>\<open>useEngine\<close> (\<^verbatim>\<open>./hooks/useEngine\<close>) is not under src/. The
  spec counts the engine among the ten handles, set or unset, whose identity may change;
  the hook returns the current one, whatever canvas and context it is called with.
\<close>

definition useEngine :: "dom option \<Rightarrow> worklet_context \<Rightarrow> hooks \<Rightarrow> handle option" where
  "useEngine canvas context st = engine_state st"

text \<open>
  Modelled from the spec: \<^verbatim>\<open>useDisposableResource\<close> is imported from
  \<^verbatim>\<open>react-native-filament\<close> and is not under src/. Following the spec (4.1, 5, 9), a call
  returns the handle acquired so far and schedules an acquisition that is issued on
  mount and again when one of the dependencies given at the call site changes identity;
  a call without a dependency list has no dependencies.
\<close>

definition useDisposableResource ::
  "slot \<Rightarrow> request \<Rightarrow> handle option list option \<Rightarrow> hooks \<Rightarrow> handle option \<times> effect" where
  "useDisposableResource k initialize deps st =
     (resource (cells st k),
      \<lparr>eff_slot = k, eff_request = initialize,
       eff_deps = (case deps of None \<Rightarrow> [] | Some ds \<Rightarrow> ds)\<rparr>)"

record rendered =
  returned :: node
  engine_call :: "dom option \<times> worklet_context"
  effects :: "effect list"

section \<open>The component body (lines 55-148)\<close>

text \<open>
  One render: the hooks are read in the order of the source, the two memo cells are
  updated, and the result holds the tree returned, the arguments \<^verbatim>\<open>useEngine\<close> was
  called with and the effects registered. \<open>canvas\<close> is \<^verbatim>\<open>canvasRef.current\<close> as line 59
  reads it; the dependency array of lines 121-132 is the record of the ten handles; an
  object created by the render numbered \<open>n\<close> has identity \<open>n\<close>.
\<close>

definition FilamentScene :: "FilamentProviderProps \<Rightarrow> hooks \<Rightarrow> rendered \<times> hooks" where
  "FilamentScene props st =
     (let viewProps = viewProps props;
          frameRateOptions = frameRateOptions viewProps;
          fallback = fallback viewProps;
          canvasRef = CanvasRef;
          canvas = canvasRef_current st;
          engine = useEngine canvas FilamentWorkletContext st;
          (transformManager, e1) = useDisposableResource TransformManager
             (optional_call TransformManager engine) (Some [engine]) st;
          (renderableManager, e2) = useDisposableResource RenderableManager
             (optional_call RenderableManager engine) (Some [engine]) st;
          (scene, e3) = useDisposableResource Scene
             (optional_call Scene engine) (Some [engine]) st;
          (lightManager, e4) = useDisposableResource LightManager
             (optional_call LightManager engine) (Some [engine]) st;
          (view, e5) = useDisposableResource View
             (optional_call View engine) (Some [engine]) st;
          (camera, e6) = useDisposableResource Camera
             (optional_call Camera engine) (Some [engine]) st;
          (renderer, e7) = useDisposableResource Renderer
             (optional_call Renderer engine) (Some [engine]) st;
          (nameComponentManager, e8) = useDisposableResource NameComponentManager
             (optional_call NameComponentManager engine) (Some [engine]) st;
          (choreographer, e9) = useDisposableResource Choreographer CreateChoreographer None st;
          deps = \<lparr>h_transformManager = transformManager,
                  h_renderableManager = renderableManager, h_scene = scene,
                  h_lightManager = lightManager, h_view = view, h_camera = camera,
                  h_renderer = renderer, h_nameComponentManager = nameComponentManager,
                  h_choreographer = choreographer, h_engine = engine\<rparr>;
          (value, vm) = useMemo (map_option (Pair (renders st)) (value_callback deps))
             deps (value_memo st);
          (rendererProps, rm) = useMemo (renders st, RendererProps frameRateOptions)
             frameRateOptions (rendererProps_memo st);
          out = (case value of
                   None \<Rightarrow> (case fallback of None \<Rightarrow> Null | Some f \<Rightarrow> Element f)
                 | Some v \<Rightarrow>
                     FilamentContext_Provider v
                       [Configurator rendererProps viewProps
                          [RenderContextProvider
                             (Canvas canvasRef # map Element (children props))]])
      in (\<lparr>returned = out, engine_call = (canvas, FilamentWorkletContext),
           effects = [e1, e2, e3, e4, e5, e6, e7, e8, e9]\<rparr>,
          st\<lparr>value_memo := vm, rendererProps_memo := rm\<rparr>))"

section \<open>Commit, and the events that drive the component\<close>

text \<open>
  What a render and the environment do that can be observed: the call of \<^verbatim>\<open>useEngine\<close>,
  the tree returned, a handle released, an acquisition issued (for a hook, by the render
  of that number).
\<close>

datatype action =
    UseEngine "dom option" worklet_context
  | Output node
  | Release slot handle
  | Acquire slot nat request

text \<open>
  Modelled from the spec: the effect of \<^verbatim>\<open>useDisposableResource\<close>, which is not under
  src/. Following the spec (3, 4.1, 5), the acquisition is issued at the commit of the
  first render and again at a commit whose dependencies differ from those of the effect
  that ran last; before a replacement is acquired the handle held is released and is
  unset while the new acquisition is pending, and the acquisition still in flight
  becomes stale. As React does, a commit runs the cleanups of all the effects that
  changed, then these effects.
\<close>

definition changed :: "(slot \<Rightarrow> disposable) \<Rightarrow> effect \<Rightarrow> bool" where
  "changed cs e = (effect_deps (cs (eff_slot e)) \<noteq> Some (eff_deps e))"

definition cleanup :: "(slot \<Rightarrow> disposable) \<Rightarrow> effect \<Rightarrow> action list" where
  "cleanup cs e =
     (case resource (cs (eff_slot e)) of None \<Rightarrow> [] | Some h \<Rightarrow> [Release (eff_slot e) h])"

definition issue :: "nat \<Rightarrow> effect \<Rightarrow> disposable \<Rightarrow> disposable" where
  "issue n e c =
     \<lparr>resource = None, effect_deps = Some (eff_deps e), pending = Some (n, eff_request e),
      stale = (case pending c of None \<Rightarrow> stale c | Some (m, rq) \<Rightarrow> m # stale c)\<rparr>"

definition commit_effects ::
  "nat \<Rightarrow> effect list \<Rightarrow> (slot \<Rightarrow> disposable) \<Rightarrow> action list \<times> (slot \<Rightarrow> disposable)" where
  "commit_effects n es cs =
     (let run = filter (changed cs) es
      in (concat (map (cleanup cs) run) @ map (\<lambda>e. Acquire (eff_slot e) n (eff_request e)) run,
          fold (\<lambda>e cs'. cs'(eff_slot e := issue n e (cs' (eff_slot e)))) run cs))"

text \<open>
  At commit React points \<^verbatim>\<open>canvasRef.current\<close> at the canvas element when the tree
  holds one (the element already there is kept, a new one is numbered by the render) and
  resets it to \<^verbatim>\<open>null\<close> when the tree holds none.
\<close>

definition attach_ref :: "nat \<Rightarrow> node \<Rightarrow> dom option \<Rightarrow> dom option" where
  "attach_ref n out cur =
     (if has_canvas out then (case cur of None \<Rightarrow> Some n | Some d \<Rightarrow> Some d) else None)"

definition commit :: "rendered \<Rightarrow> hooks \<Rightarrow> action list \<times> hooks" where
  "commit r st =
     (let (acts, cs) = commit_effects (renders st) (effects r) (cells st)
      in (acts, st\<lparr>canvasRef_current := attach_ref (renders st) (returned r) (canvasRef_current st),
                  cells := cs, renders := Suc (renders st)\<rparr>))"

text \<open>
  Modelled from the spec: how an acquisition of \<^verbatim>\<open>useDisposableResource\<close> settles.
  Following the spec (4.1, 5, 7), the result is stored when its effect is still the
  current one and there is a result; the result of a stale acquisition is discarded and
  released; a failed acquisition stores nothing. An acquisition that is not in flight
  cannot settle, and a request made with the engine unset (line 63: \<^verbatim>\<open>engine?.\<close>)
  resolves to \<^verbatim>\<open>undefined\<close> whatever the environment answers. \<open>resolve\<close> gives the
  handles released and the new state of the hook.
\<close>

definition resolve :: "nat \<Rightarrow> handle option \<Rightarrow> disposable \<Rightarrow> handle list \<times> disposable" where
  "resolve n r c =
     (if (case pending c of None \<Rightarrow> False | Some (m, rq) \<Rightarrow> m = n)
      then (case (if map_option snd (pending c) = Some Resolved_undefined then None else r) of
              None \<Rightarrow> ([], c\<lparr>pending := None\<rparr>)
            | Some a \<Rightarrow> ([], c\<lparr>resource := Some a, pending := None\<rparr>))
      else if n \<in> set (stale c)
      then ((case r of None \<Rightarrow> [] | Some a \<Rightarrow> [a]), c\<lparr>stale := removeAll n (stale c)\<rparr>)
      else ([], c))"

definition settle :: "slot \<Rightarrow> nat \<Rightarrow> handle option \<Rightarrow> hooks \<Rightarrow> action list \<times> hooks" where
  "settle k n r st =
     (let (rel, c) = resolve n r (cells st k)
      in (map (Release k) rel, st\<lparr>cells := (cells st)(k := c)\<rparr>))"

text \<open>
  The events of a mounted component: a render pass with its commit, a change of the
  handle \<^verbatim>\<open>useEngine\<close> holds, an acquisition resolving with a result (\<open>None\<close> is
  \<^verbatim>\<open>undefined\<close>), and an acquisition failing. A history is a list of events applied to
  the component as mounted; an acquisition that never settles has no event.
\<close>

datatype event =
    Render FilamentProviderProps
  | EngineUpdate "handle option"
  | Settle slot nat "handle option"
  | Reject slot nat

fun step :: "event \<Rightarrow> hooks \<Rightarrow> action list \<times> hooks" where
  "step (Render props) st =
     (let (r, st1) = FilamentScene props st;
          (acts, st2) = commit r st1
      in (UseEngine (fst (engine_call r)) (snd (engine_call r)) # Output (returned r) # acts, st2))"
| "step (EngineUpdate e) st = ([], st\<lparr>engine_state := e\<rparr>)"
| "step (Settle k n r) st = settle k n r st"
| "step (Reject k n) st = settle k n None st"

fun run :: "event list \<Rightarrow> hooks \<Rightarrow> action list \<times> hooks" where
  "run [] st = ([], st)"
| "run (e # es) st =
     (let (a, st1) = step e st; (as, st2) = run es st1 in (a @ as, st2))"

definition after :: "event list \<Rightarrow> hooks" where
  "after es = snd (run es mount)"

definition trace :: "event list \<Rightarrow> action list" where
  "trace es = fst (run es mount)"

text \<open>The ten handles as the next render will read them (lines 59-89).\<close>

definition current :: "hooks \<Rightarrow> handles" where
  "current st =
     \<lparr>h_transformManager = resource (cells st TransformManager),
      h_renderableManager = resource (cells st RenderableManager),
      h_scene = resource (cells st Scene),
      h_lightManager = resource (cells st LightManager),
      h_view = resource (cells st View),
      h_camera = resource (cells st Camera),
      h_renderer = resource (cells st Renderer),
      h_nameComponentManager = resource (cells st NameComponentManager),
      h_choreographer = resource (cells st Choreographer),
      h_engine = engine_state st\<rparr>"

text \<open>\<^verbatim>\<open>fallback ?? null\<close> (line 137).\<close>

definition fallback_or_null :: "FilamentProviderProps \<Rightarrow> node" where
  "fallback_or_null props =
     (case fallback (viewProps props) of None \<Rightarrow> Null | Some f \<Rightarrow> Element f)"

section \<open>Engine methods that throw\<close>

text \<open>
  The acquisition callbacks of lines 62-81 call \<^verbatim>\<open>engine?.createX()\<close> before
  \<^verbatim>\<open>Promise.resolve\<close>, inside the effect and with nothing to catch: a method that throws
  does so out of the callback. The engine's methods are not under src/; \<open>throws k e\<close>
  says whether the method the hook \<open>k\<close> calls on the engine \<open>e\<close> throws. Running a
  callback gives the error or the request it makes; the choreographer is created by an
  asynchronous worklet call and cannot throw here.
\<close>

datatype error = Uncaught slot handle

definition initialize :: "(slot \<Rightarrow> handle \<Rightarrow> bool) \<Rightarrow> request \<Rightarrow> error + request" where
  "initialize throws rq =
     (case rq of
        Create k e \<Rightarrow> if throws k e then Inl (Uncaught k e) else Inr (Create k e)
      | Resolved_undefined \<Rightarrow> Inr Resolved_undefined
      | CreateChoreographer \<Rightarrow> Inr CreateChoreographer)"





section \<open>Observations of a history\<close>

text \<open>
  The trees returned, the acquisitions issued for a hook (render number and request), the
  handles released for a hook, and what the configurator received, read off the actions
  and the tree.
\<close>

fun outputs :: "action list \<Rightarrow> node list" where
  "outputs [] = []"
| "outputs (Output n # as) = n # outputs as"
| "outputs (a # as) = outputs as"

fun acquired :: "slot \<Rightarrow> action list \<Rightarrow> (nat \<times> request) list" where
  "acquired k [] = []"
| "acquired k (Acquire k' n rq # as) = (if k' = k then (n, rq) # acquired k as else acquired k as)"
| "acquired k (a # as) = acquired k as"

fun released :: "slot \<Rightarrow> action list \<Rightarrow> handle list" where
  "released k [] = []"
| "released k (Release k' h # as) = (if k' = k then h # released k as else released k as)"
| "released k (a # as) = released k as"

fun configured :: "node \<Rightarrow> (rendererProps obj \<times> viewProps) option" where
  "configured (FilamentContext_Provider v [Configurator rp vp ns]) = Some (rp, vp)"
| "configured n = None"

text \<open>
  Kinds of events: a render; an acquisition of the hook \<open>k\<close> resolving with a handle;
  the acquisition or engine update an event resolves (none for a render).
\<close>

fun is_render :: "event \<Rightarrow> bool" where
  "is_render (Render props) = True"
| "is_render e = False"


fun resolution :: "event \<Rightarrow> (slot \<times> nat) option option" where
  "resolution (Render props) = None"
| "resolution (EngineUpdate e) = Some None"
| "resolution (Settle k n r) = Some (Some (k, n))"
| "resolution (Reject k n) = Some (Some (k, n))"

section \<open>Auxiliary definitions for the proofs\<close>

text \<open>The effect the hook \<open>k\<close> registers in a render that reads the engine \<open>e\<close>.\<close>

definition slot_effect :: "handle option \<Rightarrow> slot \<Rightarrow> effect" where
  "slot_effect e k =
     (if k = Choreographer
      then \<lparr>eff_slot = k, eff_request = CreateChoreographer, eff_deps = []\<rparr>
      else \<lparr>eff_slot = k, eff_request = optional_call k e, eff_deps = [e]\<rparr>)"

text \<open>What the two \<^verbatim>\<open>useMemo\<close> calls return in the next render.\<close>

definition read_value :: "hooks \<Rightarrow> FilamentContextType obj option" where
  "read_value st =
     fst (useMemo (map_option (Pair (renders st)) (value_callback (current st)))
            (current st) (value_memo st))"

definition read_rendererProps :: "FilamentProviderProps \<Rightarrow> hooks \<Rightarrow> rendererProps obj" where
  "read_rendererProps props st =
     fst (useMemo (renders st, RendererProps (frameRateOptions (viewProps props)))
            (frameRateOptions (viewProps props)) (rendererProps_memo st))"

text \<open>
  Invariants of the histories. Every memo cell holds what its callback computes from
  the stored dependencies, in an object created by an earlier render. The choreographer
  hook is either as mounted, or its effect has run with no dependencies and no
  acquisition of it is stale. A snapshot stored after the render \<open>i\<close> is the object
  \<open>v1\<close> computed from \<open>d1\<close> or was created later.
\<close>

definition memo_ok :: "hooks \<Rightarrow> bool" where
  "memo_ok st =
     ((\<forall>d v. value_memo st = Some (d, v) \<longrightarrow>
         map_option snd v = value_callback d \<and> (\<forall>x. v = Some x \<longrightarrow> fst x < renders st)) \<and>
      (\<forall>d x. rendererProps_memo st = Some (d, x) \<longrightarrow>
         snd x = RendererProps d \<and> fst x < renders st))"

definition chor_mounted :: "hooks \<Rightarrow> bool" where
  "chor_mounted st =
     (effect_deps (cells st Choreographer) = Some [] \<and> stale (cells st Choreographer) = [])"

definition chor_unmounted :: "hooks \<Rightarrow> bool" where
  "chor_unmounted st =
     (cells st Choreographer =
        \<lparr>resource = None, effect_deps = None, pending = None, stale = []\<rparr>)"

definition newer_than :: "nat \<Rightarrow> handles \<Rightarrow> FilamentContextType obj \<Rightarrow> hooks \<Rightarrow> bool" where
  "newer_than i d1 v1 s =
     (i < renders s \<and>
      (\<forall>d v. value_memo s = Some (d, Some v) \<longrightarrow> (d = d1 \<and> v = v1) \<or> i < fst v))"

text \<open>
  Sample inputs: props; a history in which everything settles (\<open>boot\<close>); one in which
  the scene acquisition fails and others stay pending (\<open>es1\<close>); the engine changing and
  the eight settling again (\<open>es6\<close>, \<open>es9\<close>); five resolutions in two orders; an engine
  of which no method throws and one of which the scene method throws; and, for any ten
  handle states, a history that ends with them.
\<close>

definition p0 :: FilamentProviderProps where
  "p0 = \<lparr>children = [7],
          viewProps = \<lparr>frameRateOptions = Some 1, fallback = Some 5, config = 0\<rparr>\<rparr>"

definition p1 :: FilamentProviderProps where
  "p1 = \<lparr>children = [7, 8],
          viewProps = \<lparr>frameRateOptions = Some 2, fallback = None, config = 0\<rparr>\<rparr>"

definition p2 :: FilamentProviderProps where
  "p2 = \<lparr>children = [7],
          viewProps = \<lparr>frameRateOptions = Some 2, fallback = Some 5, config = 0\<rparr>\<rparr>"

definition boot :: "event list" where
  "boot = [EngineUpdate (Some 10), Render p0,
           Settle TransformManager 0 (Some 11), Settle RenderableManager 0 (Some 12),
           Settle Scene 0 (Some 13), Settle LightManager 0 (Some 14),
           Settle View 0 (Some 15), Settle Camera 0 (Some 16),
           Settle Renderer 0 (Some 17), Settle NameComponentManager 0 (Some 18),
           Settle Choreographer 0 (Some 19)]"

definition es1 :: "event list" where
  "es1 = [EngineUpdate (Some 10), Render p0, Settle TransformManager 0 (Some 11),
          Reject Scene 0, Settle Choreographer 0 (Some 19)]"

definition es6 :: "event list" where
  "es6 = [EngineUpdate (Some 20), Render p0,
          Settle TransformManager 2 (Some 21), Settle RenderableManager 2 (Some 22),
          Settle Scene 2 (Some 23), Settle LightManager 2 (Some 24),
          Settle View 2 (Some 25), Settle Camera 2 (Some 26),
          Settle Renderer 2 (Some 27), Settle NameComponentManager 2 (Some 28)]"

definition es9 :: "event list" where
  "es9 = boot @ [Render p0, EngineUpdate (Some 20), Render p0]"

definition settles :: "event list" where
  "settles = [Settle Scene 0 (Some 13), EngineUpdate (Some 30), Reject View 0,
              Settle Choreographer 0 (Some 19), Settle Camera 0 None]"

definition settles' :: "event list" where
  "settles' = [Settle Camera 0 None, Settle Choreographer 0 (Some 19), EngineUpdate (Some 30),
               Settle Scene 0 (Some 13), Reject View 0]"



definition reach :: "handles \<Rightarrow> event list" where
  "reach hs =
     [EngineUpdate (Some 0), Render p0,
      Settle TransformManager 0 (h_transformManager hs),
      Settle RenderableManager 0 (h_renderableManager hs),
      Settle Scene 0 (h_scene hs),
      Settle LightManager 0 (h_lightManager hs),
      Settle View 0 (h_view hs),
      Settle Camera 0 (h_camera hs),
      Settle Renderer 0 (h_renderer hs),
      Settle NameComponentManager 0 (h_nameComponentManager hs),
      Settle Choreographer 0 (h_choreographer hs),
      EngineUpdate (h_engine hs)]"

section \<open>One render and its commit\<close>

lemma slot_effect_slot [simp]: "eff_slot (slot_effect e k) = k"
  by (simp add: slot_effect_def)

lemma FilamentScene_returned:
  "returned (fst (FilamentScene props st)) =
     (case read_value st of
        None \<Rightarrow> fallback_or_null props
      | Some v \<Rightarrow>
          FilamentContext_Provider v
            [Configurator (read_rendererProps props st) (viewProps props)
               [RenderContextProvider (Canvas CanvasRef # map Element (children props))]])"
  by (simp add: FilamentScene_def useDisposableResource_def useEngine_def Let_def split_def
      read_value_def read_rendererProps_def current_def fallback_or_null_def
      cong: option.case_cong)

lemma FilamentScene_engine_call:
  "engine_call (fst (FilamentScene props st)) = (canvasRef_current st, FilamentWorkletContext)"
  by (simp add: FilamentScene_def Let_def split_def)

lemma FilamentScene_effects:
  "effects (fst (FilamentScene props st)) = map (slot_effect (engine_state st)) slots"
  by (simp add: FilamentScene_def useDisposableResource_def useEngine_def Let_def split_def
      slots_def slot_effect_def)

lemma FilamentScene_state:
  "snd (FilamentScene props st) =
     st\<lparr>value_memo :=
          snd (useMemo (map_option (Pair (renders st)) (value_callback (current st)))
                 (current st) (value_memo st)),
        rendererProps_memo :=
          snd (useMemo (renders st, RendererProps (frameRateOptions (viewProps props)))
                 (frameRateOptions (viewProps props)) (rendererProps_memo st))\<rparr>"
  by (simp add: FilamentScene_def useDisposableResource_def useEngine_def Let_def split_def
      current_def)

lemma read_value_content:
  "memo_ok st \<Longrightarrow> map_option snd (read_value st) = value_callback (current st)"
  by (auto simp: memo_ok_def read_value_def useMemo_def option.map_comp comp_def option.map_ident
      split: option.splits prod.splits)

lemma fold_issue:
  "distinct (map eff_slot es) \<Longrightarrow>
   fold (\<lambda>e cs'. cs'(eff_slot e := issue n e (cs' (eff_slot e)))) es cs k =
     (case find (\<lambda>e. eff_slot e = k) es of None \<Rightarrow> cs k | Some e \<Rightarrow> issue n e (cs k))"
proof (induction es arbitrary: cs)
  case Nil
  show ?case by simp
next
  case (Cons e es)
  have nf: "eff_slot e = k \<Longrightarrow> find (\<lambda>e. eff_slot e = k) es = None"
    using Cons.prems by (fastforce simp: find_None_iff image_iff)
  show ?case using Cons.IH [of "cs(eff_slot e := issue n e (cs (eff_slot e)))"] Cons.prems nf
    by (auto split: option.splits)
qed

lemma distinct_slots: "distinct slots"
  by (simp add: slots_def)

lemma find_slot_effect:
  "find (\<lambda>e. eff_slot e = k) (filter P (map (slot_effect x) slots)) =
     (if P (slot_effect x k) then Some (slot_effect x k) else None)"
proof -
  have "k \<in> set slots" by (cases k) (simp_all add: slots_def)
  moreover have "\<And>ks. distinct ks \<Longrightarrow> find (\<lambda>e. eff_slot e = k) (filter P (map (slot_effect x) ks)) =
     (if k \<in> set ks \<and> P (slot_effect x k) then Some (slot_effect x k) else None)"
    subgoal for ks by (induction ks) auto
    done
  ultimately show ?thesis using distinct_slots by simp
qed

lemma step_Render_cells:
  "cells (snd (step (Render props) st)) k =
     (if changed (cells st) (slot_effect (engine_state st) k)
      then issue (renders st) (slot_effect (engine_state st) k) (cells st k)
      else cells st k)"
proof -
  have d: "distinct (map eff_slot (filter (changed (cells st)) (map (slot_effect (engine_state st)) slots)))"
    using distinct_slots by (simp add: distinct_map_filter comp_def)
  show ?thesis
    by (simp add: split_def Let_def commit_def commit_effects_def FilamentScene_effects
        FilamentScene_state fold_issue [OF d] find_slot_effect)
qed

lemma step_Render_fields:
  "canvasRef_current (snd (step (Render props) st)) =
     attach_ref (renders st) (returned (fst (FilamentScene props st))) (canvasRef_current st)"
  "engine_state (snd (step (Render props) st)) = engine_state st"
  "renders (snd (step (Render props) st)) = Suc (renders st)"
  "value_memo (snd (step (Render props) st)) =
     snd (useMemo (map_option (Pair (renders st)) (value_callback (current st)))
            (current st) (value_memo st))"
  "rendererProps_memo (snd (step (Render props) st)) =
     snd (useMemo (renders st, RendererProps (frameRateOptions (viewProps props)))
            (frameRateOptions (viewProps props)) (rendererProps_memo st))"
  by (simp_all add: split_def Let_def commit_def FilamentScene_state)

lemma step_Render_actions:
  "fst (step (Render props) st) =
     UseEngine (canvasRef_current st) FilamentWorkletContext #
     Output (returned (fst (FilamentScene props st))) #
     fst (commit_effects (renders st) (map (slot_effect (engine_state st)) slots) (cells st))"
  by (simp add: split_def Let_def commit_def FilamentScene_state FilamentScene_effects
      FilamentScene_engine_call)

lemma settle_fields:
  "canvasRef_current (snd (settle k n r st)) = canvasRef_current st"
  "engine_state (snd (settle k n r st)) = engine_state st"
  "renders (snd (settle k n r st)) = renders st"
  "value_memo (snd (settle k n r st)) = value_memo st"
  "rendererProps_memo (snd (settle k n r st)) = rendererProps_memo st"
  by (simp_all add: settle_def Let_def split_def)

lemma memo_ok_mount: "memo_ok mount"
  by (simp add: memo_ok_def mount_def)

lemma memo_ok_step: "memo_ok st \<Longrightarrow> memo_ok (snd (step e st))"
proof (cases e)
  case (Render props)
  assume "memo_ok st"
  then show ?thesis unfolding Render memo_ok_def step_Render_fields
    by (auto simp: useMemo_def option.map_comp comp_def option.map_ident less_Suc_eq
        split: option.splits prod.splits if_splits)
next
  case (EngineUpdate x)
  assume "memo_ok st"
  then show ?thesis unfolding EngineUpdate by (simp add: memo_ok_def)
next
  case (Settle k n r)
  assume "memo_ok st"
  then show ?thesis unfolding Settle by (simp add: memo_ok_def settle_fields)
next
  case (Reject k n)
  assume "memo_ok st"
  then show ?thesis unfolding Reject by (simp add: memo_ok_def settle_fields)
qed

lemma memo_ok_run: "memo_ok st \<Longrightarrow> memo_ok (snd (run es st))"
  by (induction es arbitrary: st) (simp_all add: split_def Let_def memo_ok_step)

lemma memo_ok_after: "memo_ok (after es)"
  by (simp add: after_def memo_ok_run memo_ok_mount)

lemma published_render:
  "map_option snd (published (returned (fst (FilamentScene props (after es))))) =
     value_callback (current (after es))"
  using read_value_content [OF memo_ok_after, of es]
  by (cases "read_value (after es)")
     (auto simp: FilamentScene_returned fallback_or_null_def split: option.splits)

section \<open>Evaluating histories\<close>

text \<open>
  The hook cells of a concrete state are kept in the form \<open>case_slot c1 \<dots> c9\<close>, so that
  a history is evaluated event by event.
\<close>

lemma const_cells:
  "(\<lambda>k. c) = case_slot c c c c c c c c c"
  by (rule ext) (simp split: slot.split)

lemma upd_cells:
  "(case_slot c1 c2 c3 c4 c5 c6 c7 c8 c9)(TransformManager := c) = case_slot c c2 c3 c4 c5 c6 c7 c8 c9"
  "(case_slot c1 c2 c3 c4 c5 c6 c7 c8 c9)(RenderableManager := c) = case_slot c1 c c3 c4 c5 c6 c7 c8 c9"
  "(case_slot c1 c2 c3 c4 c5 c6 c7 c8 c9)(Scene := c) = case_slot c1 c2 c c4 c5 c6 c7 c8 c9"
  "(case_slot c1 c2 c3 c4 c5 c6 c7 c8 c9)(LightManager := c) = case_slot c1 c2 c3 c c5 c6 c7 c8 c9"
  "(case_slot c1 c2 c3 c4 c5 c6 c7 c8 c9)(View := c) = case_slot c1 c2 c3 c4 c c6 c7 c8 c9"
  "(case_slot c1 c2 c3 c4 c5 c6 c7 c8 c9)(Camera := c) = case_slot c1 c2 c3 c4 c5 c c7 c8 c9"
  "(case_slot c1 c2 c3 c4 c5 c6 c7 c8 c9)(Renderer := c) = case_slot c1 c2 c3 c4 c5 c6 c c8 c9"
  "(case_slot c1 c2 c3 c4 c5 c6 c7 c8 c9)(NameComponentManager := c) = case_slot c1 c2 c3 c4 c5 c6 c7 c c9"
  "(case_slot c1 c2 c3 c4 c5 c6 c7 c8 c9)(Choreographer := c) = case_slot c1 c2 c3 c4 c5 c6 c7 c8 c"
  by (rule ext, simp split: slot.split)+

lemma step_Render_eq:
  "step (Render props) st =
     (UseEngine (canvasRef_current st) FilamentWorkletContext #
      Output (returned (fst (FilamentScene props st))) #
      fst (commit_effects (renders st) (map (slot_effect (engine_state st)) slots) (cells st)),
      st\<lparr>value_memo :=
           snd (useMemo (map_option (Pair (renders st)) (value_callback (current st)))
                 (current st) (value_memo st)),
         rendererProps_memo :=
           snd (useMemo (renders st, RendererProps (frameRateOptions (viewProps props)))
                 (frameRateOptions (viewProps props)) (rendererProps_memo st)),
         canvasRef_current :=
           attach_ref (renders st) (returned (fst (FilamentScene props st))) (canvasRef_current st),
         cells := snd (commit_effects (renders st) (map (slot_effect (engine_state st)) slots) (cells st)),
         renders := Suc (renders st)\<rparr>)"
  by (simp add: split_def Let_def commit_def FilamentScene_state FilamentScene_effects
      FilamentScene_engine_call)

lemma snd_run_Cons: "snd (run (e # es) st) = snd (run es (snd (step e st)))"
  by (simp add: split_def Let_def)

lemma fst_run_Cons: "fst (run (e # es) st) = fst (step e st) @ fst (run es (snd (step e st)))"
  by (simp add: split_def Let_def)

lemmas evaluate = after_def trace_def snd_run_Cons fst_run_Cons mount_def const_cells upd_cells
  step_Render_eq FilamentScene_returned read_value_def read_rendererProps_def
  commit_effects_def slots_def slot_effect_def changed_def cleanup_def issue_def
  optional_call_def attach_ref_def useMemo_def current_def value_callback_def any_unset_def
  settle_def resolve_def fallback_or_null_def Let_def

lemma current_boot:
  "current (after boot) =
     \<lparr>h_transformManager = Some 11, h_renderableManager = Some 12, h_scene = Some 13,
      h_lightManager = Some 14, h_view = Some 15, h_camera = Some 16, h_renderer = Some 17,
      h_nameComponentManager = Some 18, h_choreographer = Some 19, h_engine = Some 10\<rparr>"
  unfolding boot_def p0_def by (simp add: evaluate del: step.simps(1) run.simps(2))

lemma current_es1:
  "current (after es1) =
     \<lparr>h_transformManager = Some 11, h_renderableManager = None, h_scene = None,
      h_lightManager = None, h_view = None, h_camera = None, h_renderer = None,
      h_nameComponentManager = None, h_choreographer = Some 19, h_engine = Some 10\<rparr>"
  unfolding es1_def p0_def by (simp add: evaluate del: step.simps(1) run.simps(2))

section \<open>What a render returns\<close>

lemma value_callback_None: "(value_callback hs = None) = any_unset hs"
  by (simp add: value_callback_def)

lemma returned_closed:
  "any_unset (current (after es)) \<Longrightarrow>
   returned (fst (FilamentScene props (after es))) = fallback_or_null props"
proof -
  assume "any_unset (current (after es))"
  then have "map_option snd (read_value (after es)) = None"
    using read_value_content [OF memo_ok_after, of es] by (simp add: value_callback_None)
  then show ?thesis by (simp add: FilamentScene_returned)
qed

lemma returned_open:
  "\<not> any_unset (current (after es)) \<Longrightarrow>
   returned (fst (FilamentScene props (after es))) =
     FilamentContext_Provider
       (fst (the (read_value (after es))), the (value_callback (current (after es))))
       [Configurator (read_rendererProps props (after es)) (viewProps props)
          [RenderContextProvider (Canvas CanvasRef # map Element (children props))]]"
  using read_value_content [OF memo_ok_after, of es]
  by (cases "read_value (after es)") (auto simp: FilamentScene_returned value_callback_def)

section \<open>Actions and hook cells of a step\<close>

text \<open>
  From here on a render step is rewritten by the lemmas above, not by its definition.
\<close>

declare step.simps(1) [simp del]

lemma outputs_append: "outputs (as @ bs) = outputs as @ outputs bs"
  by (induction as rule: outputs.induct) simp_all

lemma acquired_append: "acquired k (as @ bs) = acquired k as @ acquired k bs"
  by (induction k as rule: acquired.induct) simp_all

lemma released_append: "released k (as @ bs) = released k as @ released k bs"
  by (induction k as rule: released.induct) simp_all

lemma any_canvas_append: "any_canvas (ms @ ns) = (any_canvas ms \<or> any_canvas ns)"
  by (induction ms) simp_all

lemma filter_slot_effect:
  "filter (\<lambda>e. P e \<and> eff_slot e = k) (map (slot_effect x) slots) =
     (if P (slot_effect x k) then [slot_effect x k] else [])"
proof -
  have "k \<in> set slots" by (cases k) (simp_all add: slots_def)
  moreover have "\<And>ks. distinct ks \<Longrightarrow>
      filter (\<lambda>e. P e \<and> eff_slot e = k) (map (slot_effect x) ks) =
        (if k \<in> set ks \<and> P (slot_effect x k) then [slot_effect x k] else [])"
    subgoal for ks by (induction ks) auto
    done
  ultimately show ?thesis using distinct_slots by simp
qed

lemma outputs_commit: "outputs (fst (commit_effects n es cs)) = []"
proof -
  have a: "\<And>xs. outputs (map (\<lambda>e. Acquire (eff_slot e) n (eff_request e)) xs) = []"
    subgoal for xs by (induction xs) simp_all
    done
  have b: "\<And>xs. outputs (concat (map (cleanup cs) xs)) = []"
    subgoal for xs by (induction xs) (simp_all add: outputs_append cleanup_def split: option.splits)
    done
  show ?thesis by (simp add: commit_effects_def Let_def outputs_append a b)
qed

lemma acquired_commit:
  "acquired k (fst (commit_effects n es cs)) =
     map (\<lambda>e. (n, eff_request e)) (filter (\<lambda>e. changed cs e \<and> eff_slot e = k) es)"
proof -
  have a: "\<And>xs. acquired k (map (\<lambda>e. Acquire (eff_slot e) n (eff_request e)) xs) =
      map (\<lambda>e. (n, eff_request e)) (filter (\<lambda>e. eff_slot e = k) xs)"
    subgoal for xs by (induction xs) simp_all
    done
  have b: "\<And>xs. acquired k (concat (map (cleanup cs) xs)) = []"
    subgoal for xs by (induction xs) (simp_all add: acquired_append cleanup_def split: option.splits)
    done
  show ?thesis by (simp add: commit_effects_def Let_def acquired_append a b)
qed

lemma released_commit:
  "released k (fst (commit_effects n es cs)) =
     concat (map (\<lambda>e. case resource (cs k) of None \<Rightarrow> [] | Some h \<Rightarrow> [h])
       (filter (\<lambda>e. changed cs e \<and> eff_slot e = k) es))"
proof -
  have a: "\<And>xs. released k (map (\<lambda>e. Acquire (eff_slot e) n (eff_request e)) xs) = []"
    subgoal for xs by (induction xs) simp_all
    done
  have b: "\<And>xs. released k (concat (map (cleanup cs) xs)) =
      concat (map (\<lambda>e. case resource (cs k) of None \<Rightarrow> [] | Some h \<Rightarrow> [h])
        (filter (\<lambda>e. eff_slot e = k) xs))"
    subgoal for xs
      by (induction xs) (auto simp: released_append cleanup_def split: option.splits)
    done
  show ?thesis by (simp add: commit_effects_def Let_def released_append a b)
qed

lemma step_Render_acquired:
  "acquired k (fst (step (Render props) st)) =
     (if changed (cells st) (slot_effect (engine_state st) k)
      then [(renders st, eff_request (slot_effect (engine_state st) k))] else [])"
  by (simp add: step_Render_actions acquired_commit filter_slot_effect)

lemma step_Render_released:
  "released k (fst (step (Render props) st)) =
     (if changed (cells st) (slot_effect (engine_state st) k)
      then (case resource (cells st k) of None \<Rightarrow> [] | Some h \<Rightarrow> [h]) else [])"
  by (simp add: step_Render_actions released_commit filter_slot_effect)

lemma step_Render_outputs:
  "outputs (fst (step (Render props) st)) = [returned (fst (FilamentScene props st))]"
  by (simp add: step_Render_actions outputs_commit)

lemma settle_cells:
  "cells (snd (settle k n r st)) k' =
     (if k' = k then snd (resolve n r (cells st k)) else cells st k')"
  by (simp add: settle_def split_def Let_def)

lemma settle_actions:
  "outputs (fst (settle k n r st)) = []"
  "acquired k' (fst (settle k n r st)) = []"
  "released k' (fst (settle k n r st)) = (if k' = k then fst (resolve n r (cells st k)) else [])"
proof -
  have a: "\<And>xs. outputs (map (Release k) xs) = []"
    subgoal for xs by (induction xs) simp_all
    done
  have b: "\<And>xs. acquired k' (map (Release k) xs) = []"
    subgoal for xs by (induction xs) simp_all
    done
  have c: "\<And>xs. released k' (map (Release k) xs) = (if k' = k then xs else [])"
    subgoal for xs by (induction xs) auto
    done
  show "outputs (fst (settle k n r st)) = []" by (simp add: settle_def split_def Let_def a)
  show "acquired k' (fst (settle k n r st)) = []" by (simp add: settle_def split_def Let_def b)
  show "released k' (fst (settle k n r st)) = (if k' = k then fst (resolve n r (cells st k)) else [])"
    by (simp add: settle_def split_def Let_def c)
qed

lemma run_append:
  "run (es @ fs) st =
     (fst (run es st) @ fst (run fs (snd (run es st))), snd (run fs (snd (run es st))))"
  by (induction es arbitrary: st) (simp_all add: split_def Let_def)

declare run.simps(2) [simp del]

lemma after_snoc: "after (es @ [e]) = snd (step e (after es))"
  by (simp add: after_def run_append snd_run_Cons)


section \<open>The canvas ref\<close>

lemma step_canvas:
  "canvasRef_current (snd (step e st)) =
     (if is_render e
      then (if any_canvas (outputs (fst (step e st)))
            then (case canvasRef_current st of None \<Rightarrow> Some (renders st) | Some d \<Rightarrow> Some d)
            else None)
      else canvasRef_current st)"
  by (cases e)
     (simp_all add: step_Render_fields step_Render_outputs settle_fields attach_ref_def)


section \<open>The choreographer hook\<close>

lemma step_cells:
  "cells (snd (step e st)) k =
     (case e of
        Render props \<Rightarrow>
          if changed (cells st) (slot_effect (engine_state st) k)
          then issue (renders st) (slot_effect (engine_state st) k) (cells st k)
          else cells st k
      | EngineUpdate x \<Rightarrow> cells st k
      | Settle k' n r \<Rightarrow> if k = k' then snd (resolve n r (cells st k')) else cells st k
      | Reject k' n \<Rightarrow> if k = k' then snd (resolve n None (cells st k')) else cells st k)"
  by (cases e) (simp_all add: step_Render_cells settle_cells)

lemma step_acquired:
  "acquired k (fst (step e st)) =
     (if is_render e \<and> changed (cells st) (slot_effect (engine_state st) k)
      then [(renders st, eff_request (slot_effect (engine_state st) k))] else [])"
  by (cases e) (simp_all add: step_Render_acquired settle_actions)

lemma step_released:
  "released k (fst (step e st)) =
     (case e of
        Render props \<Rightarrow>
          if changed (cells st) (slot_effect (engine_state st) k)
          then (case resource (cells st k) of None \<Rightarrow> [] | Some h \<Rightarrow> [h]) else []
      | EngineUpdate x \<Rightarrow> []
      | Settle k' n r \<Rightarrow> if k = k' then fst (resolve n r (cells st k')) else []
      | Reject k' n \<Rightarrow> if k = k' then fst (resolve n None (cells st k')) else [])"
  by (cases e) (simp_all add: step_Render_released settle_actions)

lemma step_renders: "renders (snd (step e st)) = (if is_render e then Suc (renders st) else renders st)"
  by (cases e) (simp_all add: step_Render_fields settle_fields)

lemma step_engine:
  "engine_state (snd (step e st)) = (case e of EngineUpdate x \<Rightarrow> x | _ \<Rightarrow> engine_state st)"
  by (cases e) (simp_all add: step_Render_fields settle_fields)

lemma chor_mounted_step:
  assumes "chor_mounted st"
  shows "chor_mounted (snd (step e st))"
    and "acquired Choreographer (fst (step e st)) = []"
    and "released Choreographer (fst (step e st)) = []"
    and "is_render e \<Longrightarrow> cells (snd (step e st)) Choreographer = cells st Choreographer"
  using assms
  by (auto simp: chor_mounted_def step_cells step_acquired step_released changed_def
      slot_effect_def resolve_def split: event.splits option.splits)

lemma chor_mounted_run:
  "chor_mounted st \<Longrightarrow>
   chor_mounted (snd (run es st)) \<and> acquired Choreographer (fst (run es st)) = [] \<and>
   released Choreographer (fst (run es st)) = []"
  by (induction es arbitrary: st)
     (simp_all add: snd_run_Cons fst_run_Cons acquired_append released_append chor_mounted_step)

lemma chor_unmounted_step:
  assumes "chor_unmounted st"
  shows "\<not> is_render e \<Longrightarrow> chor_unmounted (snd (step e st))"
    and "is_render e \<Longrightarrow> chor_mounted (snd (step e st))"
    and "acquired Choreographer (fst (step e st)) =
           (if is_render e then [(renders st, CreateChoreographer)] else [])"
    and "released Choreographer (fst (step e st)) = []"
  using assms
  by (auto simp: chor_mounted_def chor_unmounted_def step_cells step_acquired step_released
      changed_def slot_effect_def resolve_def issue_def split: event.splits option.splits)

lemma chor_unmounted_run:
  "chor_unmounted st \<Longrightarrow>
   (if list_ex is_render es then chor_mounted (snd (run es st))
    else chor_unmounted (snd (run es st))) \<and>
   acquired Choreographer (fst (run es st)) =
     (if list_ex is_render es then [(renders st, CreateChoreographer)] else []) \<and>
   released Choreographer (fst (run es st)) = []"
proof (induction es arbitrary: st)
  case Nil
  then show ?case by simp
next
  case (Cons e es)
  show ?case
  proof (cases "is_render e")
    case True
    then have m: "chor_mounted (snd (step e st))"
      using Cons.prems by (simp add: chor_unmounted_step)
    show ?thesis using True chor_mounted_run [OF m, of es] Cons.prems
      by (simp add: snd_run_Cons fst_run_Cons acquired_append released_append
          chor_unmounted_step)
  next
    case False
    then have u: "chor_unmounted (snd (step e st))"
      using Cons.prems by (simp add: chor_unmounted_step)
    show ?thesis using False Cons.IH [OF u] Cons.prems
      by (simp add: snd_run_Cons fst_run_Cons acquired_append released_append
          chor_unmounted_step step_renders)
  qed
qed

section \<open>Engine changes and the identity of the snapshot\<close>

lemma published_read: "published (returned (fst (FilamentScene props st))) = read_value st"
  by (simp add: FilamentScene_returned fallback_or_null_def split: option.splits)

lemma deps_after_render:
  "effect_deps (cells (snd (step (Render props) st)) k) =
     Some (eff_deps (slot_effect (engine_state st) k))"
  by (simp add: step_Render_cells changed_def issue_def)

lemma deps_kept_step:
  "\<not> is_render e \<Longrightarrow> effect_deps (cells (snd (step e st)) k) = effect_deps (cells st k)"
  by (cases e) (auto simp: settle_cells resolve_def split: option.splits)

lemma deps_kept_run:
  "\<not> list_ex is_render ss \<Longrightarrow>
   effect_deps (cells (snd (run ss st)) k) = effect_deps (cells st k)"
  by (induction ss arbitrary: st) (simp_all add: snd_run_Cons deps_kept_step)

lemma after_append: "after (es @ fs) = snd (run fs (after es))"
  by (simp add: after_def run_append)

lemma after_render_append:
  "after (es @ Render props # fs) = snd (run fs (snd (step (Render props) (after es))))"
  by (simp add: after_append snd_run_Cons)

lemma memo_after_render:
  "value_memo (snd (step (Render props) st)) = Some (current st, read_value st)"
  by (auto simp: step_Render_fields read_value_def useMemo_def split: option.splits)

lemma read_value_id:
  "memo_ok st \<Longrightarrow> read_value st = Some v \<Longrightarrow> fst v \<le> renders st"
  by (cases v) (auto simp: read_value_def useMemo_def memo_ok_def split: option.splits if_splits)

lemma newer_than_step: "newer_than i d1 v1 s \<Longrightarrow> newer_than i d1 v1 (snd (step e s))"
proof (cases e)
  case (Render props)
  assume "newer_than i d1 v1 s"
  then show ?thesis unfolding Render newer_than_def step_Render_fields
    by (auto simp: useMemo_def split: option.splits if_splits)
next
  case (EngineUpdate x)
  assume "newer_than i d1 v1 s"
  then show ?thesis unfolding EngineUpdate by (simp add: newer_than_def)
next
  case (Settle k n r)
  assume "newer_than i d1 v1 s"
  then show ?thesis unfolding Settle by (simp add: newer_than_def settle_fields)
next
  case (Reject k n)
  assume "newer_than i d1 v1 s"
  then show ?thesis unfolding Reject by (simp add: newer_than_def settle_fields)
qed

lemma newer_than_run: "newer_than i d1 v1 s \<Longrightarrow> newer_than i d1 v1 (snd (run es s))"
  by (induction es arbitrary: s) (simp_all add: snd_run_Cons newer_than_step)

lemma newer_than_read:
  "newer_than i d1 v1 s \<Longrightarrow> read_value s = Some v2 \<Longrightarrow> current s \<noteq> d1 \<Longrightarrow> i < fst v2"
  by (cases v2)
     (auto simp: newer_than_def read_value_def useMemo_def split: option.splits if_splits)

lemma fresh_snapshot:
  assumes "published (returned (fst (FilamentScene props1 (after es)))) = Some v1"
      and "published (returned (fst (FilamentScene props3 (after (es @ Render props1 # gs))))) = Some v2"
      and "current (after (es @ Render props1 # gs)) \<noteq> current (after es)"
  shows "fst v1 < fst v2"
proof -
  have r1: "read_value (after es) = Some v1" using assms(1) by (simp add: published_read)
  have "newer_than (fst v1) (current (after es)) v1 (snd (step (Render props1) (after es)))"
    using read_value_id [OF memo_ok_after r1]
    by (simp add: newer_than_def memo_after_render r1 step_Render_fields)
  then have "newer_than (fst v1) (current (after es)) v1 (after (es @ Render props1 # gs))"
    by (simp add: after_render_append newer_than_run)
  then show ?thesis using assms(2,3) newer_than_read by (simp add: published_read)
qed

lemma configured_render:
  "configured (returned (fst (FilamentScene props st))) =
     (case read_value st of
        None \<Rightarrow> None | Some v \<Rightarrow> Some (read_rendererProps props st, viewProps props))"
  by (simp add: FilamentScene_returned fallback_or_null_def split: option.splits)

lemma read_rendererProps_content:
  "memo_ok st \<Longrightarrow>
   snd (read_rendererProps props st) = RendererProps (frameRateOptions (viewProps props)) \<and>
   fst (read_rendererProps props st) \<le> renders st"
  by (auto simp: read_rendererProps_def useMemo_def memo_ok_def split: option.splits)

lemma rendererProps_after_render:
  "read_rendererProps props2 (snd (step (Render props1) st)) =
     (if frameRateOptions (viewProps props2) = frameRateOptions (viewProps props1)
      then read_rendererProps props1 st
      else (Suc (renders st), RendererProps (frameRateOptions (viewProps props2))))"
  by (auto simp: read_rendererProps_def step_Render_fields useMemo_def split: option.splits)

lemma read_value_after_render:
  "current (snd (step (Render props) st)) = current st \<Longrightarrow>
   read_value (snd (step (Render props) st)) = read_value st"
  by (simp add: read_value_def [of "snd (step (Render props) st)"] memo_after_render useMemo_def)

section \<open>Acquisitions that never deliver\<close>





section \<open>The order of resolutions\<close>

lemma run_fold: "snd (run es st) = fold (\<lambda>e s. snd (step e s)) es st"
  by (induction es arbitrary: st) (simp_all add: snd_run_Cons)

lemma removeAll_twist: "removeAll n (removeAll m xs) = removeAll m (removeAll n xs)"
  by (induction xs) auto

lemma resolve_snd:
  "snd (resolve n r c) =
     (if (case pending c of None \<Rightarrow> False | Some (m, rq) \<Rightarrow> m = n)
      then c\<lparr>resource :=
               (case (if map_option snd (pending c) = Some Resolved_undefined then None else r) of
                  None \<Rightarrow> resource c | Some a \<Rightarrow> Some a),
             pending := None\<rparr>
      else c\<lparr>stale := removeAll n (stale c)\<rparr>)"
  by (simp add: resolve_def split: option.splits)

lemma resolve_twist:
  assumes "n \<noteq> m"
  shows "snd (resolve n r (snd (resolve m q c))) = snd (resolve m q (snd (resolve n r c)))"
proof -
  consider (first) rq where "pending c = Some (n, rq)"
    | (second) rq where "pending c = Some (m, rq)"
    | (neither) "\<not> (case pending c of None \<Rightarrow> False | Some (k, rq) \<Rightarrow> k = n)"
        "\<not> (case pending c of None \<Rightarrow> False | Some (k, rq) \<Rightarrow> k = m)"
    by (cases "pending c") auto
  then show ?thesis
  proof cases
    case first
    then show ?thesis using assms by (simp add: resolve_snd cong: option.case_cong)
  next
    case second
    then show ?thesis using assms by (simp add: resolve_snd cong: option.case_cong)
  next
    case neither
    then show ?thesis by (simp add: resolve_snd removeAll_twist)
  qed
qed

lemma settle_state:
  "snd (settle k n r st) = st\<lparr>cells := (cells st)(k := snd (resolve n r (cells st k)))\<rparr>"
  by (simp add: settle_def split_def Let_def)

lemma settle_twist:
  "k = k' \<longrightarrow> n \<noteq> m \<Longrightarrow>
   snd (settle k n r (snd (settle k' m q st))) = snd (settle k' m q (snd (settle k n r st)))"
proof (cases "k = k'")
  case True
  assume "k = k' \<longrightarrow> n \<noteq> m"
  with True have "n \<noteq> m" by simp
  then show ?thesis using True by (simp add: settle_state resolve_twist)
next
  case False
  then show ?thesis by (simp add: settle_state fun_upd_twist)
qed

lemma settle_engine_twist:
  "snd (settle k n r (st\<lparr>engine_state := e\<rparr>)) = (snd (settle k n r st))\<lparr>engine_state := e\<rparr>"
  by (simp add: settle_state)

lemma step_twist:
  assumes "resolution x \<noteq> None" "resolution y \<noteq> None" "resolution x \<noteq> resolution y"
  shows "snd (step x (snd (step y s))) = snd (step y (snd (step x s)))"
  using assms
  by (cases x; cases y) (auto simp: settle_engine_twist intro!: settle_twist)

lemma run_permuted:
  assumes "mset xs = mset ys" "distinct (map resolution xs)" "None \<notin> set (map resolution xs)"
  shows "snd (run xs st) = snd (run ys st)"
proof -
  let ?f = "\<lambda>e s. snd (step e s)"
  have "?f x \<circ> ?f y = ?f y \<circ> ?f x" if "x \<in> set xs" "y \<in> set xs" for x y
  proof (cases "x = y")
    case True
    then show ?thesis by simp
  next
    case False
    have "inj_on resolution (set xs)" using assms(2) by (simp add: distinct_map)
    then have "resolution x \<noteq> resolution y"
      using False that by (simp add: inj_on_eq_iff)
    moreover have "resolution x \<noteq> None" "resolution y \<noteq> None"
      using assms(3) that by force+
    ultimately show ?thesis by (auto simp: fun_eq_iff step_twist)
  qed
  then have "fold ?f xs = fold ?f ys" using assms(1) by (rule fold_multiset_equiv)
  then show ?thesis by (simp add: run_fold)
qed

text \<open>Every combination of states of the ten handles is reached by some history.\<close>

lemma case_option_id: "(case r of None \<Rightarrow> None | Some a \<Rightarrow> Some a) = r"
  by (cases r) simp_all

lemma current_reach: "current (after (reach hs)) = hs"
  unfolding reach_def p0_def
  by (simp add: after_def snd_run_Cons mount_def const_cells upd_cells step_Render_eq
      FilamentScene_returned read_value_def read_rendererProps_def commit_effects_def slots_def
      slot_effect_def changed_def cleanup_def issue_def optional_call_def attach_ref_def
      useMemo_def current_def value_callback_def any_unset_def settle_state resolve_snd
      fallback_or_null_def Let_def case_option_id cong: option.case_cong)

section \<open>The canvas ref after a render\<close>

lemma has_canvas_returned:
  "has_canvas (returned (fst (FilamentScene props (after es)))) =
     (\<not> any_unset (current (after es)))"
proof (cases "any_unset (current (after es))")
  case True
  then show ?thesis
    by (simp add: returned_closed fallback_or_null_def split: option.splits)
next
  case False
  then show ?thesis by (simp add: returned_open)
qed

lemma canvas_kept_run:
  "\<not> list_ex is_render ss \<Longrightarrow> canvasRef_current (snd (run ss st)) = canvasRef_current st"
  by (induction ss arbitrary: st) (simp_all add: snd_run_Cons step_canvas)

lemma canvas_before_render:
  "\<not> list_ex is_render ss \<Longrightarrow> canvasRef_current (after ss) = None"
  by (simp add: after_def canvas_kept_run) (simp add: mount_def)

lemma canvas_after_render:
  assumes "\<not> list_ex is_render ss"
  shows "(canvasRef_current (after (es @ Render props # ss)) = None) =
           any_unset (current (after es))"
proof -
  have "canvasRef_current (after (es @ Render props # ss)) =
      canvasRef_current (snd (step (Render props) (after es)))"
    using assms by (simp add: after_render_append canvas_kept_run)
  then show ?thesis
    by (simp add: step_canvas step_Render_outputs has_canvas_returned split: option.splits)
qed

section \<open>Histories with engine methods that throw\<close>











section \<open>The claims\<close>

text \<open>
  C1. Whatever the ten handles are, as soon as one of them is unset the memoised context
  value is \<^verbatim>\<open>undefined\<close>; some history of the component ends with these handles, and
  after every such history the render publishes no context and returns the fallback, or
  nothing.
\<close>

theorem no_partial_snapshot:
  assumes "h_transformManager hs = None \<or> h_renderableManager hs = None \<or> h_scene hs = None \<or>
           h_lightManager hs = None \<or> h_view hs = None \<or> h_camera hs = None \<or>
           h_renderer hs = None \<or> h_nameComponentManager hs = None \<or>
           h_choreographer hs = None \<or> h_engine hs = None"
  shows "value_callback hs = None \<and>
         current (after (reach hs)) = hs \<and>
         (current (after es) = hs \<longrightarrow>
            published (returned (fst (FilamentScene props (after es)))) = None \<and>
            returned (fst (FilamentScene props (after es))) = fallback_or_null props)"
proof -
  have u: "any_unset hs" using assms by (simp add: any_unset_def)
  then have v: "value_callback hs = None" by (simp add: value_callback_None)
  have "current (after es) = hs \<Longrightarrow>
          published (returned (fst (FilamentScene props (after es)))) = None"
    using published_render [of props es] v by simp
  with u v show ?thesis by (auto simp: returned_closed current_reach)
qed

text \<open>One resource set, one failed, the others pending: the fallback is returned.\<close>

theorem no_partial_snapshot_witness:
  "h_scene (current (after es1)) = None \<and>
   h_transformManager (current (after es1)) = Some 11 \<and>
   value_callback (current (after es1)) = None \<and>
   published (returned (fst (FilamentScene p0 (after es1)))) = None \<and>
   returned (fst (FilamentScene p0 (after es1))) = Element 5"
proof -
  note c = current_es1
  show ?thesis
    using no_partial_snapshot [of "current (after es1)" es1 p0]
    by (simp add: c fallback_or_null_def p0_def)
qed

text \<open>
  C4. While the gate is closed the render returns exactly the caller's fallback when
  there is one and \<^verbatim>\<open>null\<close> otherwise: the only caller element in the output is the
  fallback, and the output does not depend on the children.
\<close>

theorem closed_gate_renders_fallback:
  assumes "any_unset (current (after es))"
  shows "returned (fst (FilamentScene props (after es))) =
           (case fallback (viewProps props) of None \<Rightarrow> Null | Some f \<Rightarrow> Element f) \<and>
         has_element x (returned (fst (FilamentScene props (after es)))) =
           (fallback (viewProps props) = Some x) \<and>
         returned (fst (FilamentScene (props\<lparr>children := cs\<rparr>) (after es))) =
           returned (fst (FilamentScene props (after es)))"
  using assms by (auto simp: returned_closed fallback_or_null_def split: option.splits)

theorem closed_gate_renders_fallback_witness:
  "any_unset (current (after es1)) \<and>
   returned (fst (FilamentScene p0 (after es1))) = Element 5 \<and>
   \<not> has_element 7 (returned (fst (FilamentScene p0 (after es1)))) \<and>
   returned (fst (FilamentScene (p0\<lparr>children := [8, 9]\<rparr>) (after es1))) =
     returned (fst (FilamentScene p0 (after es1)))"
proof -
  note c = current_es1
  have u: "any_unset (current (after es1))" by (simp add: c any_unset_def)
  show ?thesis
    using closed_gate_renders_fallback [OF u, of p0 7 "[8, 9]"] u
    by (simp add: p0_def)
qed

text \<open>
  C5. When all ten handles are set, the render publishes an object holding exactly these
  ten references and the worklet context under the names of \<^verbatim>\<open>FilamentContextType\<close>, and
  beneath the provider the configurator, the render-callback provider and, inside it,
  the canvas followed by the children.
\<close>

theorem open_gate_publishes_all:
  assumes "current (after es) =
             \<lparr>h_transformManager = Some tm, h_renderableManager = Some rm, h_scene = Some sc,
              h_lightManager = Some lm, h_view = Some vw, h_camera = Some cam,
              h_renderer = Some rd, h_nameComponentManager = Some ncm,
              h_choreographer = Some ch, h_engine = Some eng\<rparr>"
  shows "\<exists>i rp. returned (fst (FilamentScene props (after es))) =
           FilamentContext_Provider
             (i, \<lparr>engine = eng, transformManager = tm, renderableManager = rm, scene = sc,
                  lightManager = lm, view = vw, camera = cam, renderer = rd,
                  nameComponentManager = ncm, workletContext = FilamentWorkletContext,
                  choreographer = ch\<rparr>)
             [Configurator rp (viewProps props)
                [RenderContextProvider (Canvas CanvasRef # map Element (children props))]]"
proof -
  have o: "\<not> any_unset (current (after es))" by (simp add: assms any_unset_def)
  show ?thesis
    by (simp add: returned_open [OF o]) (simp add: assms value_callback_def any_unset_def)
qed

theorem open_gate_publishes_all_witness:
  "published (returned (fst (FilamentScene p0 (after boot)))) =
     Some (1, \<lparr>engine = 10, transformManager = 11, renderableManager = 12, scene = 13,
               lightManager = 14, view = 15, camera = 16, renderer = 17,
               nameComponentManager = 18, workletContext = FilamentWorkletContext,
               choreographer = 19\<rparr>) \<and>
   has_canvas (returned (fst (FilamentScene p0 (after boot))))"
proof -
  note c = current_boot
  have i: "fst (the (read_value (after boot))) = 1"
    unfolding boot_def p0_def by (simp add: evaluate)
  from open_gate_publishes_all [OF c, of p0] obtain j rp where
    r: "returned (fst (FilamentScene p0 (after boot))) =
           FilamentContext_Provider
             (j, \<lparr>engine = 10, transformManager = 11, renderableManager = 12, scene = 13,
                  lightManager = 14, view = 15, camera = 16, renderer = 17,
                  nameComponentManager = 18, workletContext = FilamentWorkletContext,
                  choreographer = 19\<rparr>)
             [Configurator rp (viewProps p0)
                [RenderContextProvider (Canvas CanvasRef # map Element (children p0))]]"
    by blast
  have "j = 1" using r i
    by (simp add: FilamentScene_returned fallback_or_null_def split: option.splits)
  with r show ?thesis by simp
qed

text \<open>
  C3, as stated, fails: with the engine set, no fallback given and the nine acquisitions
  pending, the render returns \<^verbatim>\<open>null\<close>, and the canvas is not part of it.
\<close>

theorem canvas_absent_while_pending:
  "returned (fst (FilamentScene p1 (after [EngineUpdate (Some 10), Render p1]))) = Null \<and>
   \<not> has_canvas (returned (fst (FilamentScene p1 (after [EngineUpdate (Some 10), Render p1]))))"
  unfolding p1_def by (simp add: evaluate)

text \<open>
  C3, amended. The canvas is part of the render output exactly when the gate is open;
  it is then the first child of the render-callback provider and carries the ref
  \<^verbatim>\<open>canvasRef\<close>, the one ref object of the component.
\<close>

theorem canvas_iff_gate:
  "has_canvas (returned (fst (FilamentScene props (after es)))) =
     (\<not> any_unset (current (after es))) \<and>
   (any_unset (current (after es)) \<or>
    (\<exists>v rp. returned (fst (FilamentScene props (after es))) =
       FilamentContext_Provider v
         [Configurator rp (viewProps props)
            [RenderContextProvider (Canvas CanvasRef # map Element (children props))]]))"
proof (cases "any_unset (current (after es))")
  case True
  then show ?thesis
    by (simp add: returned_closed fallback_or_null_def split: option.splits)
next
  case False
  then show ?thesis by (simp add: returned_open)
qed

text \<open>
  The canvas is rendered once all ten handles are set, and not while some are pending.
\<close>

theorem canvas_iff_gate_witness:
  "has_canvas (returned (fst (FilamentScene p0 (after boot)))) \<and>
   \<not> has_canvas (returned (fst (FilamentScene p0 (after es1))))"
  using canvas_iff_gate [of p0 boot] canvas_iff_gate [of p0 es1]
  by (simp add: current_boot current_es1 any_unset_def)

text \<open>
  C9, as stated, fails: after a render with the gate open has mounted the canvas and a
  change of the engine has unset the eight engine resources, the next render has the gate
  closed and still reads the canvas element from \<^verbatim>\<open>canvasRef.current\<close>.
\<close>

theorem engine_call_after_reclose:
  "any_unset (current (after es9)) \<and>
   engine_call (fst (FilamentScene p0 (after es9))) = (Some 1, FilamentWorkletContext) \<and>
   returned (fst (FilamentScene p0 (after es9))) = Element 5"
  unfolding es9_def boot_def p0_def
  by (simp add: evaluate FilamentScene_engine_call)

text \<open>
  C9, amended. On the initial mount and in every render before the first commit, and in
  every render whose preceding render had the gate closed (returned no canvas),
  \<^verbatim>\<open>useEngine\<close> is called with a \<^verbatim>\<open>null\<close> canvas and the worklet context; after a
  render with the gate open it is called with the canvas element.
\<close>

theorem engine_called_without_canvas:
  assumes "\<not> list_ex is_render ss"
  shows "engine_call (fst (FilamentScene props (after ss))) = (None, FilamentWorkletContext) \<and>
         hd (fst (step (Render props) (after ss))) = UseEngine None FilamentWorkletContext \<and>
         (any_unset (current (after es)) \<or>
          \<not> has_canvas (returned (fst (FilamentScene props' (after es)))) \<longrightarrow>
            engine_call (fst (FilamentScene props (after (es @ Render props' # ss)))) =
              (None, FilamentWorkletContext) \<and>
            hd (fst (step (Render props) (after (es @ Render props' # ss)))) =
              UseEngine None FilamentWorkletContext) \<and>
         (\<not> any_unset (current (after es)) \<longrightarrow>
            fst (engine_call (fst (FilamentScene props (after (es @ Render props' # ss))))) \<noteq>
              None)"
  using canvas_before_render [OF assms] canvas_after_render [OF assms, of es props']
  by (auto simp: FilamentScene_engine_call step_Render_actions has_canvas_returned)

text \<open>
  The first render; the closed-gate render right after the gate was open reads the canvas
  element, the render after it reads \<^verbatim>\<open>null\<close> again.
\<close>

theorem engine_called_without_canvas_witness:
  "engine_call (fst (FilamentScene p0 (after []))) = (None, FilamentWorkletContext) \<and>
   any_unset (current (after es9)) \<and>
   engine_call (fst (FilamentScene p0 (after es9))) = (Some 1, FilamentWorkletContext) \<and>
   engine_call (fst (FilamentScene p0 (after (es9 @ [Render p0])))) =
     (None, FilamentWorkletContext) \<and>
   \<not> any_unset (current (after boot)) \<and>
   fst (engine_call (fst (FilamentScene p0 (after (boot @ [Render p0]))))) \<noteq> None"
proof -
  have n: "\<not> list_ex is_render []" by simp
  have u: "any_unset (current (after es9))"
    unfolding es9_def boot_def p0_def by (simp add: evaluate)
  have c: "engine_call (fst (FilamentScene p0 (after es9))) = (Some 1, FilamentWorkletContext)"
    unfolding es9_def boot_def p0_def by (simp add: evaluate FilamentScene_engine_call)
  have o: "\<not> any_unset (current (after boot))" by (simp add: current_boot any_unset_def)
  show ?thesis
    using engine_called_without_canvas [OF n, of p0 es9 p0]
      engine_called_without_canvas [OF n, of p0 boot p0] u c o
    by simp
qed

text \<open>
  C10. Over every history, the choreographer is acquired exactly once, by the first
  render, whatever the engine handle is then, and it is never released; a change of
  the engine followed by a render leaves its hook state, and so its handle, as it was.
\<close>

theorem choreographer_independent:
  "acquired Choreographer (trace es) =
     (if list_ex is_render es then [(0, CreateChoreographer)] else []) \<and>
   released Choreographer (trace es) = [] \<and>
   (list_ex is_render es \<longrightarrow>
      acquired Choreographer (fst (step (Render props) (after (es @ [EngineUpdate e])))) = [] \<and>
      released Choreographer (fst (step (Render props) (after (es @ [EngineUpdate e])))) = [] \<and>
      cells (after (es @ [EngineUpdate e, Render props])) Choreographer =
        cells (after es) Choreographer)"
proof -
  have u: "chor_unmounted mount" by (simp add: chor_unmounted_def mount_def)
  note r = chor_unmounted_run [OF u, of es]
  have a: "acquired Choreographer (trace es) =
     (if list_ex is_render es then [(0, CreateChoreographer)] else [])"
    using r by (simp add: trace_def mount_def)
  have b: "released Choreographer (trace es) = []" using r by (simp add: trace_def)
  have c: "acquired Choreographer (fst (step (Render props) (after (es @ [EngineUpdate e])))) = [] \<and>
      released Choreographer (fst (step (Render props) (after (es @ [EngineUpdate e])))) = [] \<and>
      cells (after (es @ [EngineUpdate e, Render props])) Choreographer =
        cells (after es) Choreographer" if "list_ex is_render es"
  proof -
    have m: "chor_mounted (after es)" using r that by (simp add: after_def)
    have m': "chor_mounted (after (es @ [EngineUpdate e]))"
      using chor_mounted_step(1) [OF m, of "EngineUpdate e"] by (simp add: after_snoc)
    have s: "after (es @ [EngineUpdate e, Render props]) =
        snd (step (Render props) (after (es @ [EngineUpdate e])))"
      using after_snoc [of "es @ [EngineUpdate e]" "Render props"] by simp
    have k: "cells (after (es @ [EngineUpdate e])) Choreographer = cells (after es) Choreographer"
      by (simp add: after_snoc)
    show ?thesis
      using chor_mounted_step(2,3,4) [OF m', of "Render props"] by (simp add: s k)
  qed
  from a b c show ?thesis by blast
qed

text \<open>
  The engine changes from 10 to 20 after everything has settled: the choreographer 19
  stays.
\<close>

theorem choreographer_independent_witness:
  "acquired Choreographer (trace boot) = [(0, CreateChoreographer)] \<and>
   released Choreographer (trace boot) = [] \<and>
   acquired Choreographer (fst (step (Render p0) (after (boot @ [EngineUpdate (Some 20)])))) = [] \<and>
   released Choreographer (fst (step (Render p0) (after (boot @ [EngineUpdate (Some 20)])))) = [] \<and>
   cells (after (boot @ [EngineUpdate (Some 20), Render p0])) Choreographer =
     cells (after boot) Choreographer \<and>
   resource (cells (after boot) Choreographer) = Some 19"
proof -
  have r: "list_ex is_render boot" by (simp add: boot_def)
  have h: "resource (cells (after boot) Choreographer) = Some 19"
    using current_boot by (simp add: current_def)
  show ?thesis
    using choreographer_independent [of boot p0 "Some 20"] r h by simp
qed

text \<open>
  C6, amended. When the engine handle differs from the one the last render read, the
  next render re-issues the eight engine-derived acquisitions with the new engine,
  releases each of their handles that was set and unsets it; the choreographer is neither
  released nor acquired again, and its hook state stays. A render whose ten handles
  differ from those of an earlier published snapshot publishes an object of another
  identity.
\<close>

theorem engine_change_reacquires_eight:
  assumes "\<not> list_ex is_render ss"
      and "engine_state (after (es @ Render props1 # ss)) \<noteq> engine_state (after es)"
  shows "(k \<noteq> Choreographer \<longrightarrow>
            acquired k (fst (step (Render props2) (after (es @ Render props1 # ss)))) =
              [(renders (after (es @ Render props1 # ss)),
                optional_call k (engine_state (after (es @ Render props1 # ss))))] \<and>
            released k (fst (step (Render props2) (after (es @ Render props1 # ss)))) =
              (case resource (cells (after (es @ Render props1 # ss)) k) of
                 None \<Rightarrow> [] | Some h \<Rightarrow> [h]) \<and>
            resource (cells (snd (step (Render props2) (after (es @ Render props1 # ss)))) k) = None) \<and>
         acquired Choreographer (fst (step (Render props2) (after (es @ Render props1 # ss)))) = [] \<and>
         released Choreographer (fst (step (Render props2) (after (es @ Render props1 # ss)))) = [] \<and>
         cells (snd (step (Render props2) (after (es @ Render props1 # ss)))) Choreographer =
           cells (after (es @ Render props1 # ss)) Choreographer \<and>
         (published (returned (fst (FilamentScene props1 (after es)))) = Some v1 \<and>
          published (returned (fst (FilamentScene props3 (after (es @ Render props1 # gs))))) = Some v2 \<and>
          current (after (es @ Render props1 # gs)) \<noteq> current (after es)
          \<longrightarrow> fst v2 \<noteq> fst v1)"
proof -
  let ?st = "after (es @ Render props1 # ss)"
  have d: "effect_deps (cells ?st k) = Some (eff_deps (slot_effect (engine_state (after es)) k))"
    using assms(1) by (simp add: after_render_append deps_kept_run deps_after_render)
  have eight: "k \<noteq> Choreographer \<Longrightarrow> changed (cells ?st) (slot_effect (engine_state ?st) k)"
    using d assms(2) by (simp add: changed_def slot_effect_def)
  have a: "k \<noteq> Choreographer \<Longrightarrow>
      acquired k (fst (step (Render props2) ?st)) =
        [(renders ?st, optional_call k (engine_state ?st))]"
    using eight by (simp add: step_Render_acquired slot_effect_def)
  have b: "k \<noteq> Choreographer \<Longrightarrow>
      released k (fst (step (Render props2) ?st)) =
        (case resource (cells ?st k) of None \<Rightarrow> [] | Some h \<Rightarrow> [h])"
    using eight by (simp add: step_Render_released)
  have c: "k \<noteq> Choreographer \<Longrightarrow> resource (cells (snd (step (Render props2) ?st)) k) = None"
    using eight by (simp add: step_Render_cells issue_def)
  have "list_ex is_render (es @ Render props1 # ss)" by simp
  then have m: "chor_mounted ?st"
    using chor_unmounted_run [of mount "es @ Render props1 # ss"]
    by (simp add: after_def chor_unmounted_def mount_def)
  have f: "published (returned (fst (FilamentScene props1 (after es)))) = Some v1 \<Longrightarrow>
      published (returned (fst (FilamentScene props3 (after (es @ Render props1 # gs))))) = Some v2 \<Longrightarrow>
      current (after (es @ Render props1 # gs)) \<noteq> current (after es) \<Longrightarrow> fst v2 \<noteq> fst v1"
    using fresh_snapshot [of props1 es v1 props3 gs v2] by simp
  show ?thesis
    using a b c f chor_mounted_step(2,3,4) [OF m, of "Render props2"] by simp
qed

text \<open>
  C6, as stated, fails: with everything settled and the engine changed from 10 to 20,
  the next render re-issues the scene acquisition and releases scene 13, and issues and
  releases nothing for the choreographer.
\<close>

theorem choreographer_not_reissued:
  "engine_state (after boot) = Some 10 \<and>
   engine_state (after (boot @ [EngineUpdate (Some 20)])) = Some 20 \<and>
   acquired Choreographer (fst (step (Render p0) (after (boot @ [EngineUpdate (Some 20)])))) = [] \<and>
   released Choreographer (fst (step (Render p0) (after (boot @ [EngineUpdate (Some 20)])))) = [] \<and>
   acquired Scene (fst (step (Render p0) (after (boot @ [EngineUpdate (Some 20)])))) =
     [(1, Create Scene 20)] \<and>
   released Scene (fst (step (Render p0) (after (boot @ [EngineUpdate (Some 20)])))) = [13]"
  unfolding boot_def p0_def by (simp add: evaluate)

text \<open>
  The engine changes after a render with everything settled; once the eight have settled
  again, the snapshot published is object 3, not object 1.
\<close>

theorem engine_change_reacquires_eight_witness:
  "acquired Scene (fst (step (Render p0) (after (boot @ Render p0 # [EngineUpdate (Some 20)])))) =
     [(2, Create Scene 20)] \<and>
   released Scene (fst (step (Render p0) (after (boot @ Render p0 # [EngineUpdate (Some 20)])))) =
     [13] \<and>
   resource (cells (snd (step (Render p0) (after (boot @ Render p0 # [EngineUpdate (Some 20)]))))
     Scene) = None \<and>
   acquired Choreographer
     (fst (step (Render p0) (after (boot @ Render p0 # [EngineUpdate (Some 20)])))) = [] \<and>
   published (returned (fst (FilamentScene p0 (after boot)))) =
     Some (1, \<lparr>engine = 10, transformManager = 11, renderableManager = 12, scene = 13,
               lightManager = 14, view = 15, camera = 16, renderer = 17,
               nameComponentManager = 18, workletContext = FilamentWorkletContext,
               choreographer = 19\<rparr>) \<and>
   published (returned (fst (FilamentScene p0 (after (boot @ Render p0 # es6))))) =
     Some (3, \<lparr>engine = 20, transformManager = 21, renderableManager = 22, scene = 23,
               lightManager = 24, view = 25, camera = 26, renderer = 27,
               nameComponentManager = 28, workletContext = FilamentWorkletContext,
               choreographer = 19\<rparr>) \<and>
   h_engine (current (after (boot @ Render p0 # es6))) = Some 20 \<and>
   h_engine (current (after boot)) = Some 10"
proof -
  let ?st = "after (boot @ Render p0 # [EngineUpdate (Some 20)])"
  have e: "engine_state ?st = Some 20" "engine_state (after boot) = Some 10" "renders ?st = 2"
    "resource (cells ?st Scene) = Some 13"
    unfolding boot_def p0_def by (simp_all add: evaluate)
  have v1: "published (returned (fst (FilamentScene p0 (after boot)))) =
     Some (1, \<lparr>engine = 10, transformManager = 11, renderableManager = 12, scene = 13,
               lightManager = 14, view = 15, camera = 16, renderer = 17,
               nameComponentManager = 18, workletContext = FilamentWorkletContext,
               choreographer = 19\<rparr>)"
    unfolding boot_def p0_def by (simp add: evaluate)
  have v2: "published (returned (fst (FilamentScene p0 (after (boot @ Render p0 # es6))))) =
     Some (3, \<lparr>engine = 20, transformManager = 21, renderableManager = 22, scene = 23,
               lightManager = 24, view = 25, camera = 26, renderer = 27,
               nameComponentManager = 28, workletContext = FilamentWorkletContext,
               choreographer = 19\<rparr>)"
    unfolding boot_def es6_def p0_def by (simp add: evaluate)
  have c: "h_engine (current (after (boot @ Render p0 # es6))) = Some 20"
    "h_engine (current (after boot)) = Some 10"
    unfolding boot_def es6_def p0_def by (simp_all add: evaluate)
  then have c': "current (after (boot @ Render p0 # es6)) \<noteq> current (after boot)"
    by auto
  have n: "\<not> list_ex is_render [EngineUpdate (Some 20)]" by simp
  have d: "engine_state ?st \<noteq> engine_state (after boot)" by (simp add: e)
  show ?thesis
    using engine_change_reacquires_eight [OF n d, where k = Scene and ?props2.0 = p0
        and ?props3.0 = p0 and gs = es6 and ?v1.0 = "(1, \<lparr>engine = 10, transformManager = 11,
          renderableManager = 12, scene = 13, lightManager = 14, view = 15, camera = 16,
          renderer = 17, nameComponentManager = 18, workletContext = FilamentWorkletContext,
          choreographer = 19\<rparr>)"
        and ?v2.0 = "(3, \<lparr>engine = 20, transformManager = 21,
          renderableManager = 22, scene = 23, lightManager = 24, view = 25, camera = 26,
          renderer = 27, nameComponentManager = 28, workletContext = FilamentWorkletContext,
          choreographer = 19\<rparr>)"] c'
    by (simp add: e v1 v2 c optional_call_def)
qed

text \<open>
  C7. After a render that published a snapshot and left the ten handles as they were,
  the next render publishes the same object whatever its props are; the configurator
  receives the props of that render and a renderer-options object holding its frame-rate
  options: the object of the previous render when the frame-rate options are the same,
  a new one otherwise.
\<close>

theorem frame_rate_change_keeps_snapshot:
  assumes "published (returned (fst (FilamentScene props1 (after es)))) = Some v"
      and "current (after (es @ [Render props1])) = current (after es)"
  shows "published (returned (fst (FilamentScene props2 (after (es @ [Render props1]))))) = Some v \<and>
         (\<exists>rp rp1.
            configured (returned (fst (FilamentScene props2 (after (es @ [Render props1]))))) =
              Some (rp, viewProps props2) \<and>
            snd rp = RendererProps (frameRateOptions (viewProps props2)) \<and>
            configured (returned (fst (FilamentScene props1 (after es)))) =
              Some (rp1, viewProps props1) \<and>
            (if frameRateOptions (viewProps props2) = frameRateOptions (viewProps props1)
             then rp = rp1 else fst rp \<noteq> fst rp1))"
proof -
  let ?st = "after es"
  let ?st' = "snd (step (Render props1) ?st)"
  have s: "after (es @ [Render props1]) = ?st'" by (simp add: after_snoc)
  have r: "read_value ?st = Some v" using assms(1) by (simp add: published_read)
  have r': "read_value ?st' = Some v"
    using assms(2) r by (simp add: s read_value_after_render)
  have c1: "snd (read_rendererProps props1 ?st) =
      RendererProps (frameRateOptions (viewProps props1))"
      "fst (read_rendererProps props1 ?st) \<le> renders ?st"
    using read_rendererProps_content [OF memo_ok_after, of props1 es] by simp_all
  show ?thesis
    using c1 by (simp add: s published_read configured_render r r' rendererProps_after_render)
qed

text \<open>
  The frame-rate options change from 1 to 2: the snapshot stays object 1, the
  renderer options are a new object.
\<close>

theorem frame_rate_change_keeps_snapshot_witness:
  "published (returned (fst (FilamentScene p2 (after (boot @ [Render p0]))))) =
     published (returned (fst (FilamentScene p0 (after boot)))) \<and>
   published (returned (fst (FilamentScene p0 (after boot)))) =
     Some (1, \<lparr>engine = 10, transformManager = 11, renderableManager = 12, scene = 13,
               lightManager = 14, view = 15, camera = 16, renderer = 17,
               nameComponentManager = 18, workletContext = FilamentWorkletContext,
               choreographer = 19\<rparr>) \<and>
   configured (returned (fst (FilamentScene p2 (after (boot @ [Render p0]))))) =
     Some ((2, RendererProps (Some 2)), viewProps p2) \<and>
   configured (returned (fst (FilamentScene p0 (after boot)))) =
     Some ((0, RendererProps (Some 1)), viewProps p0)"
proof -
  have v: "published (returned (fst (FilamentScene p0 (after boot)))) =
     Some (1, \<lparr>engine = 10, transformManager = 11, renderableManager = 12, scene = 13,
               lightManager = 14, view = 15, camera = 16, renderer = 17,
               nameComponentManager = 18, workletContext = FilamentWorkletContext,
               choreographer = 19\<rparr>)"
    unfolding boot_def p0_def by (simp add: evaluate)
  have c: "current (after (boot @ [Render p0])) = current (after boot)"
    unfolding boot_def p0_def by (simp add: evaluate)
  have k: "configured (returned (fst (FilamentScene p0 (after boot)))) =
     Some ((0, RendererProps (Some 1)), viewProps p0)"
    unfolding boot_def p0_def by (simp add: evaluate)
  have k2: "configured (returned (fst (FilamentScene p2 (after (boot @ [Render p0]))))) =
     Some ((2, RendererProps (Some 2)), viewProps p2)"
    unfolding boot_def p0_def p2_def by (simp add: evaluate)
  show ?thesis
    using frame_rate_change_keeps_snapshot [OF v c, of p2] by (simp add: v k k2)
qed




text \<open>
  C2. The memoised value is defined exactly when all ten handles are set, and what a
  render publishes is this function of the ten current handles, whatever the history.
  Resolutions (acquisitions settling or failing, each once, and one engine update)
  applied in two orders leave the same ten handles, hence the same gate.
\<close>

theorem gate_depends_on_handles_only:
  assumes "mset xs = mset ys"
      and "distinct (map resolution xs)"
      and "None \<notin> set (map resolution xs)"
  shows "(value_callback hs \<noteq> None) =
           (h_transformManager hs \<noteq> None \<and> h_renderableManager hs \<noteq> None \<and>
            h_scene hs \<noteq> None \<and> h_lightManager hs \<noteq> None \<and> h_view hs \<noteq> None \<and>
            h_camera hs \<noteq> None \<and> h_renderer hs \<noteq> None \<and>
            h_nameComponentManager hs \<noteq> None \<and> h_choreographer hs \<noteq> None \<and>
            h_engine hs \<noteq> None) \<and>
         map_option snd (published (returned (fst (FilamentScene props (after es))))) =
           value_callback (current (after es)) \<and>
         current (snd (run xs (after es))) = current (snd (run ys (after es))) \<and>
         value_callback (current (snd (run xs (after es)))) =
           value_callback (current (snd (run ys (after es))))"
  using run_permuted [OF assms, of "after es"]
  by (simp add: published_render) (simp add: value_callback_def any_unset_def)

text \<open>
  Five resolutions in two orders.
\<close>

theorem gate_depends_on_handles_only_witness:
  "mset settles = mset settles' \<and>
   current (snd (run settles (after [EngineUpdate (Some 10), Render p0]))) =
     current (snd (run settles' (after [EngineUpdate (Some 10), Render p0]))) \<and>
   current (snd (run settles' (after [EngineUpdate (Some 10), Render p0]))) =
     \<lparr>h_transformManager = None, h_renderableManager = None, h_scene = Some 13,
      h_lightManager = None, h_view = None, h_camera = None, h_renderer = None,
      h_nameComponentManager = None, h_choreographer = Some 19, h_engine = Some 30\<rparr> \<and>
   value_callback (current (after boot)) \<noteq> None"
proof -
  have m: "mset settles = mset settles'" by (simp add: settles_def settles'_def)
  have d: "distinct (map resolution settles)" by (simp add: settles_def)
  have n: "None \<notin> set (map resolution settles)" by (simp add: settles_def)
  have c: "current (snd (run settles' (after [EngineUpdate (Some 10), Render p0]))) =
     \<lparr>h_transformManager = None, h_renderableManager = None, h_scene = Some 13,
      h_lightManager = None, h_view = None, h_camera = None, h_renderer = None,
      h_nameComponentManager = None, h_choreographer = Some 19, h_engine = Some 30\<rparr>"
    unfolding settles'_def p0_def by (simp add: evaluate)
  show ?thesis
    using gate_depends_on_handles_only [OF m d n, of "current (after boot)"
        p0 "[EngineUpdate (Some 10), Render p0]"] m c
    by (simp add: current_boot)
qed

end
